theory Spec2Isabelle
  imports Complex_Main "HOL-Library.Char_ord" "HOL-Library.List_Lexorder"
begin

section \<open>Numbers, vectors and matrices\<close>

text \<open>
  The program is JavaScript: every number is an IEEE double. The embedding reads a number as
  a \<^typ>\<open>real\<close>, so rounding, infinities and NaN are outside the model, and a joint
  configuration is a \<^typ>\<open>real list\<close>. Reading an array past its end gives
  \<^verbatim>\<open>undefined\<close> in JavaScript (and NaN once used in arithmetic); the theorems
  below therefore speak about arrays of the seven entries the loops of the program read.

  \<^verbatim>\<open>THREE.Vector3\<close> and \<^verbatim>\<open>THREE.Matrix4\<close> belong to the three.js library. Only
  the methods the program calls are embedded, as the library defines them: a
  \<^verbatim>\<open>Matrix4\<close> keeps sixteen numbers in its array \<^verbatim>\<open>elements\<close>, column after
  column, \<^verbatim>\<open>set\<close> takes them row after row, and \<^verbatim>\<open>multiply\<close> multiplies from
  the right.
\<close>

datatype vec3 = Vec3 (vx: real) (vy: real) (vz: real)

definition subVectors :: "vec3 \<Rightarrow> vec3 \<Rightarrow> vec3" where
  "subVectors a b = Vec3 (vx a - vx b) (vy a - vy b) (vz a - vz b)"

definition vlength :: "vec3 \<Rightarrow> real" where
  "vlength v = sqrt (vx v * vx v + vy v * vy v + vz v * vz v)"

definition multiplyScalar :: "vec3 \<Rightarrow> real \<Rightarrow> vec3" where
  "multiplyScalar v s = Vec3 (vx v * s) (vy v * s) (vz v * s)"

definition divideScalar :: "vec3 \<Rightarrow> real \<Rightarrow> vec3" where
  "divideScalar v s = multiplyScalar v (1 / s)"

definition dot :: "vec3 \<Rightarrow> vec3 \<Rightarrow> real" where
  "dot a b = vx a * vx b + vy a * vy b + vz a * vz b"

type_synonym matrix4 = "real list"

definition set_m4 ::
  "real \<Rightarrow> real \<Rightarrow> real \<Rightarrow> real \<Rightarrow> real \<Rightarrow> real \<Rightarrow> real \<Rightarrow> real \<Rightarrow>
   real \<Rightarrow> real \<Rightarrow> real \<Rightarrow> real \<Rightarrow> real \<Rightarrow> real \<Rightarrow> real \<Rightarrow> real \<Rightarrow> matrix4" where
  "set_m4 n11 n12 n13 n14 n21 n22 n23 n24 n31 n32 n33 n34 n41 n42 n43 n44 =
     [n11, n21, n31, n41,
      n12, n22, n32, n42,
      n13, n23, n33, n43,
      n14, n24, n34, n44]"

definition identity_m4 :: matrix4 where
  "identity_m4 = set_m4 1 0 0 0  0 1 0 0  0 0 1 0  0 0 0 1"

definition makeTranslation :: "real \<Rightarrow> real \<Rightarrow> real \<Rightarrow> matrix4" where
  "makeTranslation x y z = set_m4 1 0 0 x  0 1 0 y  0 0 1 z  0 0 0 1"

definition multiplyMatrices :: "matrix4 \<Rightarrow> matrix4 \<Rightarrow> matrix4" where
  "multiplyMatrices ae be =
    (let a11 = ae ! 0; a12 = ae ! 4; a13 = ae ! 8; a14 = ae ! 12;
         a21 = ae ! 1; a22 = ae ! 5; a23 = ae ! 9; a24 = ae ! 13;
         a31 = ae ! 2; a32 = ae ! 6; a33 = ae ! 10; a34 = ae ! 14;
         a41 = ae ! 3; a42 = ae ! 7; a43 = ae ! 11; a44 = ae ! 15;
         b11 = be ! 0; b12 = be ! 4; b13 = be ! 8; b14 = be ! 12;
         b21 = be ! 1; b22 = be ! 5; b23 = be ! 9; b24 = be ! 13;
         b31 = be ! 2; b32 = be ! 6; b33 = be ! 10; b34 = be ! 14;
         b41 = be ! 3; b42 = be ! 7; b43 = be ! 11; b44 = be ! 15
     in [a11 * b11 + a12 * b21 + a13 * b31 + a14 * b41,
         a21 * b11 + a22 * b21 + a23 * b31 + a24 * b41,
         a31 * b11 + a32 * b21 + a33 * b31 + a34 * b41,
         a41 * b11 + a42 * b21 + a43 * b31 + a44 * b41,
         a11 * b12 + a12 * b22 + a13 * b32 + a14 * b42,
         a21 * b12 + a22 * b22 + a23 * b32 + a24 * b42,
         a31 * b12 + a32 * b22 + a33 * b32 + a34 * b42,
         a41 * b12 + a42 * b22 + a43 * b32 + a44 * b42,
         a11 * b13 + a12 * b23 + a13 * b33 + a14 * b43,
         a21 * b13 + a22 * b23 + a23 * b33 + a24 * b43,
         a31 * b13 + a32 * b23 + a33 * b33 + a34 * b43,
         a41 * b13 + a42 * b23 + a43 * b33 + a44 * b43,
         a11 * b14 + a12 * b24 + a13 * b34 + a14 * b44,
         a21 * b14 + a22 * b24 + a23 * b34 + a24 * b44,
         a31 * b14 + a32 * b24 + a33 * b34 + a34 * b44,
         a41 * b14 + a42 * b24 + a43 * b34 + a44 * b44])"

definition setFromMatrixPosition :: "matrix4 \<Rightarrow> vec3" where
  "setFromMatrixPosition e = Vec3 (e ! 12) (e ! 13) (e ! 14)"

section \<open>The chain: FrankaRobot.jsx\<close>

record dh_params =
  dh_d :: "real list"
  dh_a :: "real list"
  dh_alpha :: "real list"

definition FRANKA_DH :: dh_params where
  "FRANKA_DH = \<lparr>
     dh_d = [0.333, 0, 0.316, 0, 0.384, 0, 0],
     dh_a = [0, 0, 0, 0.0825, -0.0825, 0, 0.088],
     dh_alpha = [0, - pi / 2, pi / 2, pi / 2, - pi / 2, pi / 2, pi / 2] \<rparr>"

definition JOINT_LIMITS :: "(real \<times> real) list" where
  "JOINT_LIMITS =
     [(-2.8973, 2.8973),
      (-1.7628, 1.7628),
      (-2.8973, 2.8973),
      (-3.0718, -0.0698),
      (-2.8973, 2.8973),
      (-0.0175, 3.7525),
      (-2.8973, 2.8973)]"

definition clampJoint :: "real \<Rightarrow> nat \<Rightarrow> real" where
  "clampJoint angle idx =
     max (fst (JOINT_LIMITS ! idx)) (min (snd (JOINT_LIMITS ! idx)) angle)"


subsection \<open>forwardKinematics\<close>

text \<open>The matrix \<^verbatim>\<open>Ti\<close> that the loop body builds for joint \<open>i\<close>.\<close>

definition dh_Ti :: "real list \<Rightarrow> nat \<Rightarrow> matrix4" where
  "dh_Ti jointAngles i =
    (let theta = jointAngles ! i;
         d = dh_d FRANKA_DH ! i;
         a = dh_a FRANKA_DH ! i;
         alpha = dh_alpha FRANKA_DH ! i;
         ct = cos theta;
         st = sin theta;
         ca = cos alpha;
         sa = sin alpha
     in set_m4
          ct (- st * ca) (st * sa) (a * ct)
          st (ct * ca) (- ct * sa) (a * st)
          0 sa ca d
          0 0 0 1)"

definition forwardKinematics :: "real list \<Rightarrow> vec3" where
  "forwardKinematics jointAngles =
    (let T = foldl (\<lambda>T i. multiplyMatrices T (dh_Ti jointAngles i)) identity_m4 [0..<7];
         eeOffset = makeTranslation 0 0 0.107
     in setFromMatrixPosition (multiplyMatrices T eeOffset))"

subsection \<open>solveIK\<close>

text \<open>
  The first inner loop: column \<open>j\<close> of the numerical Jacobian, from a copy of the angles
  with entry \<open>j\<close> moved by \<open>delta\<close>.
\<close>

definition jacobian_column :: "real list \<Rightarrow> vec3 \<Rightarrow> nat \<Rightarrow> vec3" where
  "jacobian_column newAngles currentPos j =
    (let delta = 0.0001;
         tempAngles = newAngles[j := newAngles ! j + delta];
         newPos = forwardKinematics tempAngles
     in divideScalar (subVectors newPos currentPos) delta)"

text \<open>The second inner loop, one joint: the damped update written back and clamped.\<close>

definition update_joint :: "vec3 list \<Rightarrow> vec3 \<Rightarrow> real \<Rightarrow> real list \<Rightarrow> nat \<Rightarrow> real list" where
  "update_joint jacobian err adaptiveStep newAngles j =
    (let lambda = 0.5;
         gradient = dot (jacobian ! j) err;
         weight = (if j < 3 then 1.0 else 0.8);
         update = gradient * adaptiveStep * weight / (1.0 + lambda * lambda);
         added = newAngles[j := newAngles ! j + update]
     in added[j := clampJoint (added ! j) j])"

text \<open>
  One pass through the body of the outer loop: \<open>None\<close> is the \<^verbatim>\<open>break\<close>,
  \<open>Some\<close> carries the angles the next pass starts from.
\<close>

definition ik_iteration :: "vec3 \<Rightarrow> real list \<Rightarrow> real list option" where
  "ik_iteration targetPos newAngles =
    (let maxStep = 0.15;
         currentPos = forwardKinematics newAngles;
         err = subVectors targetPos currentPos;
         errorMag = vlength err
     in if errorMag < 0.002 then None
        else
          let jacobian = map (jacobian_column newAngles currentPos) [0..<7];
              adaptiveStep = min maxStep (0.5 * errorMag)
          in Some (foldl (update_joint jacobian err adaptiveStep) newAngles [0..<7]))"

text \<open>
  The outer loop, by recursion on the passes that remain; \<open>iter\<close> is the loop counter. The
  result pairs the counter at the exit with the array.
\<close>

fun ik_loop :: "nat \<Rightarrow> vec3 \<Rightarrow> nat \<Rightarrow> real list \<Rightarrow> nat \<times> real list" where
  "ik_loop 0 targetPos iter newAngles = (iter, newAngles)"
| "ik_loop (Suc remaining) targetPos iter newAngles =
     (case ik_iteration targetPos newAngles of
        None \<Rightarrow> (iter, newAngles)
      | Some updated \<Rightarrow> ik_loop remaining targetPos (iter + 1) updated)"

definition solveIK :: "vec3 \<Rightarrow> real list \<Rightarrow> nat \<Rightarrow> real list" where
  "solveIK targetPos currentAngles iterations =
     snd (ik_loop iterations targetPos 0 currentAngles)"

definition solveIK_passes :: "vec3 \<Rightarrow> real list \<Rightarrow> nat \<Rightarrow> nat" where
  "solveIK_passes targetPos currentAngles iterations =
     fst (ik_loop iterations targetPos 0 currentAngles)"

section \<open>The teleoperation state of FrankaRobot\<close>




definition home_pose :: "real list" where
  "home_pose = [0, 0, 0, - pi / 2, 0, pi / 2, 0]"






text \<open>A configuration of seven angles, each inside the limits of its joint.\<close>

definition within_limits :: "real list \<Rightarrow> bool" where
  "within_limits q = list_all2 (\<lambda>angle lim. fst lim \<le> angle \<and> angle \<le> snd lim) q JOINT_LIMITS"



section \<open>The arrays of solveIK and forwardKinematics in a store\<close>

text \<open>
  To speak about what a call writes, the arrays are placed in a store: an address holds the
  numbers of one JavaScript array, and \<open>next_addr\<close> is the address the next \<^verbatim>\<open>new\<close>
  or array copy receives. A \<^verbatim>\<open>Matrix4\<close> is the address of its \<^verbatim>\<open>elements\<close>; its
  methods overwrite that array in place. Vectors stay values: no method the program calls on
  a vector it was given writes to it.
\<close>

record heap =
  arrays :: "nat \<Rightarrow> real list option"
  next_addr :: nat

definition alloc :: "real list \<Rightarrow> heap \<Rightarrow> nat \<times> heap" where
  "alloc xs h = (next_addr h, h\<lparr>arrays := (arrays h)(next_addr h \<mapsto> xs), next_addr := next_addr h + 1\<rparr>)"

definition load :: "heap \<Rightarrow> nat \<Rightarrow> real list" where
  "load h p = (case arrays h p of Some xs \<Rightarrow> xs | None \<Rightarrow> [])"

definition store_array :: "nat \<Rightarrow> real list \<Rightarrow> heap \<Rightarrow> heap" where
  "store_array p xs h = h\<lparr>arrays := (arrays h)(p \<mapsto> xs)\<rparr>"

definition store_elem :: "nat \<Rightarrow> nat \<Rightarrow> real \<Rightarrow> heap \<Rightarrow> heap" where
  "store_elem p j v h = store_array p ((load h p)[j := v]) h"

text \<open>The body of the loop of \<^verbatim>\<open>forwardKinematics\<close> for joint \<open>i\<close>.\<close>

definition fk_joint_st :: "nat \<Rightarrow> nat \<Rightarrow> heap \<Rightarrow> nat \<Rightarrow> heap" where
  "fk_joint_st jointAngles T h i =
    (let (Ti, h1) = alloc identity_m4 h;
         h2 = store_array Ti (dh_Ti (load h1 jointAngles) i) h1
     in store_array T (multiplyMatrices (load h2 T) (load h2 Ti)) h2)"

definition forwardKinematics_st :: "nat \<Rightarrow> heap \<Rightarrow> vec3 \<times> heap" where
  "forwardKinematics_st jointAngles h =
    (let (T, h1) = alloc identity_m4 h;
         h2 = store_array T identity_m4 h1;
         h3 = foldl (fk_joint_st jointAngles T) h2 [0..<7];
         (eeOffset, h4) = alloc identity_m4 h3;
         h5 = store_array eeOffset (makeTranslation 0 0 0.107) h4;
         h6 = store_array T (multiplyMatrices (load h5 T) (load h5 eeOffset)) h5
     in (setFromMatrixPosition (load h6 T), h6))"

definition jacobian_column_st :: "nat \<Rightarrow> vec3 \<Rightarrow> vec3 list \<times> heap \<Rightarrow> nat \<Rightarrow> vec3 list \<times> heap" where
  "jacobian_column_st newAngles currentPos acc j =
    (let delta = 0.0001;
         (tempAngles, h1) = alloc (load (snd acc) newAngles) (snd acc);
         h2 = store_elem tempAngles j (load h1 tempAngles ! j + delta) h1;
         (newPos, h3) = forwardKinematics_st tempAngles h2;
         dPos = divideScalar (subVectors newPos currentPos) delta
     in (fst acc @ [dPos], h3))"

definition update_joint_st :: "vec3 list \<Rightarrow> vec3 \<Rightarrow> real \<Rightarrow> nat \<Rightarrow> heap \<Rightarrow> nat \<Rightarrow> heap" where
  "update_joint_st jacobian err adaptiveStep newAngles h j =
    (let lambda = 0.5;
         gradient = dot (jacobian ! j) err;
         weight = (if j < 3 then 1.0 else 0.8);
         update = gradient * adaptiveStep * weight / (1.0 + lambda * lambda);
         h1 = store_elem newAngles j (load h newAngles ! j + update) h
     in store_elem newAngles j (clampJoint (load h1 newAngles ! j) j) h1)"

text \<open>One pass of the outer loop; the flag says whether the loop goes on.\<close>

definition ik_iteration_st :: "vec3 \<Rightarrow> nat \<Rightarrow> heap \<Rightarrow> bool \<times> heap" where
  "ik_iteration_st targetPos newAngles h =
    (let maxStep = 0.15;
         (currentPos, h1) = forwardKinematics_st newAngles h;
         err = subVectors targetPos currentPos;
         errorMag = vlength err
     in if errorMag < 0.002 then (False, h1)
        else
          let (jacobian, h2) = foldl (jacobian_column_st newAngles currentPos) ([], h1) [0..<7];
              adaptiveStep = min maxStep (0.5 * errorMag)
          in (True, foldl (update_joint_st jacobian err adaptiveStep newAngles) h2 [0..<7]))"

fun ik_loop_st :: "nat \<Rightarrow> vec3 \<Rightarrow> nat \<Rightarrow> heap \<Rightarrow> heap" where
  "ik_loop_st 0 targetPos newAngles h = h"
| "ik_loop_st (Suc remaining) targetPos newAngles h =
     (case ik_iteration_st targetPos newAngles h of
        (False, h1) \<Rightarrow> h1
      | (True, h1) \<Rightarrow> ik_loop_st remaining targetPos newAngles h1)"

definition solveIK_st :: "vec3 \<Rightarrow> nat \<Rightarrow> nat \<Rightarrow> heap \<Rightarrow> nat \<times> heap" where
  "solveIK_st targetPos currentAngles iterations h =
    (let (newAngles, h1) = alloc (load h currentAngles) h
     in (newAngles, ik_loop_st iterations targetPos newAngles h1))"

text \<open>
  What a call leaves alone: every array with an address below \<open>b\<close> holds in \<open>h'\<close> what it
  held in \<open>h\<close>, and no address was given back.
\<close>

definition unchanged_below :: "nat \<Rightarrow> heap \<Rightarrow> heap \<Rightarrow> bool" where
  "unchanged_below b h h' \<longleftrightarrow>
     next_addr h \<le> next_addr h' \<and> (\<forall>p < b. arrays h' p = arrays h p)"

section \<open>The algorithms as the specification words them\<close>

subsection \<open>Forward kinematics by homogeneous transforms\<close>

text \<open>
  A transform is a 4 by 4 matrix, a list of four rows. The Denavit-Hartenberg transform of a
  joint is the rotation about z by the joint angle, the translation along z by \<open>d\<close>, the
  translation along x by \<open>a\<close> and the rotation about x by \<open>alpha\<close>, in this order.
\<close>

type_synonym transform = "real list list"

definition mat_mul :: "transform \<Rightarrow> transform \<Rightarrow> transform" where
  "mat_mul A B = map (\<lambda>i. map (\<lambda>j. \<Sum>k<4. A ! i ! k * B ! k ! j) [0..<4]) [0..<4]"

definition mat_identity :: transform where
  "mat_identity = [[1, 0, 0, 0], [0, 1, 0, 0], [0, 0, 1, 0], [0, 0, 0, 1]]"

definition rot_z :: "real \<Rightarrow> transform" where
  "rot_z theta = [[cos theta, - sin theta, 0, 0], [sin theta, cos theta, 0, 0], [0, 0, 1, 0], [0, 0, 0, 1]]"

definition rot_x :: "real \<Rightarrow> transform" where
  "rot_x alpha = [[1, 0, 0, 0], [0, cos alpha, - sin alpha, 0], [0, sin alpha, cos alpha, 0], [0, 0, 0, 1]]"

definition translation :: "real \<Rightarrow> real \<Rightarrow> real \<Rightarrow> transform" where
  "translation x y z = [[1, 0, 0, x], [0, 1, 0, y], [0, 0, 1, z], [0, 0, 0, 1]]"

definition dh_transform :: "real \<Rightarrow> real \<Rightarrow> real \<Rightarrow> real \<Rightarrow> transform" where
  "dh_transform theta d a alpha =
     mat_mul (mat_mul (mat_mul (rot_z theta) (translation 0 0 d)) (translation a 0 0)) (rot_x alpha)"

definition translation_of :: "transform \<Rightarrow> vec3" where
  "translation_of M = Vec3 (M ! 0 ! 3) (M ! 1 ! 3) (M ! 2 ! 3)"

definition spec_forward_kinematics :: "real list \<Rightarrow> vec3" where
  "spec_forward_kinematics angles =
     translation_of
       (mat_mul
          (foldl (\<lambda>M i. mat_mul M (dh_transform (angles ! i) (dh_d FRANKA_DH ! i)
                                      (dh_a FRANKA_DH ! i) (dh_alpha FRANKA_DH ! i)))
                 mat_identity [0..<7])
          (translation 0 0 0.107))"

text \<open>The rows of a three.js matrix, read from its column-major \<^verbatim>\<open>elements\<close>.\<close>

definition rows_of :: "matrix4 \<Rightarrow> transform" where
  "rows_of e = map (\<lambda>i. map (\<lambda>j. e ! (i + 4 * j)) [0..<4]) [0..<4]"

subsection \<open>One iteration of the solver\<close>

definition spec_weight :: "nat \<Rightarrow> real" where
  "spec_weight j = (if j \<le> 2 then 1.0 else 0.8)"

definition spec_jacobian_column :: "real list \<Rightarrow> nat \<Rightarrow> vec3" where
  "spec_jacobian_column q j =
    (let perturbedPos = forwardKinematics (q[j := q ! j + 1 / 10 ^ 4]);
         currentPos = forwardKinematics q
     in Vec3 ((vx perturbedPos - vx currentPos) / (1 / 10 ^ 4))
             ((vy perturbedPos - vy currentPos) / (1 / 10 ^ 4))
             ((vz perturbedPos - vz currentPos) / (1 / 10 ^ 4)))"

definition spec_clamp :: "nat \<Rightarrow> real \<Rightarrow> real" where
  "spec_clamp j x =
     (if x < fst (JOINT_LIMITS ! j) then fst (JOINT_LIMITS ! j)
      else if snd (JOINT_LIMITS ! j) < x then snd (JOINT_LIMITS ! j)
      else x)"

definition spec_iteration :: "vec3 \<Rightarrow> real list \<Rightarrow> real list option" where
  "spec_iteration target q =
    (let current = forwardKinematics q;
         e = subVectors target current;
         errorMagnitude = vlength e
     in if errorMagnitude < 0.002 then None
        else
          let adaptiveStep = min 0.15 (0.5 * errorMagnitude)
          in Some (map (\<lambda>j. spec_clamp j
                        (q ! j + dot (spec_jacobian_column q j) e * adaptiveStep * spec_weight j
                                   / (1 + 0.5\<^sup>2)))
                     [0..<7]))"

subsection \<open>Smoothing\<close>


section \<open>The keyboard-driven arm: RobotArm7DOF\<close>

text \<open>
  The key handler of the component \<^verbatim>\<open>RobotArm7DOF\<close> (in the file with the viewer).
  A key is the string \<^verbatim>\<open>e.key\<close>; JavaScript compares strings code unit by code unit,
  which for the ASCII names of keys is the lexicographic order of \<^typ>\<open>string\<close>.
  Reading \<^verbatim>\<open>limits[selectedJoint][0]\<close> with no such row throws a TypeError.
\<close>

record arm_state =
  jointAngles :: "real list"
  selectedJoint :: nat

datatype js_error = TypeError

definition arm_init :: arm_state where
  "arm_init = \<lparr> jointAngles = [0, 0, 0, 0, 0, 0, 0], selectedJoint = 0 \<rparr>"

definition is_digit :: "char \<Rightarrow> bool" where
  "is_digit c = (CHR ''0'' \<le> c \<and> c \<le> CHR ''9'')"

definition digit_value :: "char \<Rightarrow> nat" where
  "digit_value c = of_char c - 48"

text \<open>
  \<^verbatim>\<open>parseInt\<close> on a string that starts with a digit other than 0: the number its
  leading decimal digits spell.
\<close>

definition parseInt :: "string \<Rightarrow> nat" where
  "parseInt s = foldl (\<lambda>n c. 10 * n + digit_value c) 0 (takeWhile is_digit s)"

definition limits :: "(real \<times> real) list" where
  "limits =
     [(-2.8973, 2.8973),
      (-1.7628, 1.7628),
      (-2.8973, 2.8973),
      (-3.0718, -0.0698),
      (-2.8973, 2.8973),
      (-0.0175, 3.7525),
      (-2.8973, 2.8973)]"

text \<open>The function handed to \<^verbatim>\<open>setJointAngles\<close> when an arrow key is pressed.\<close>

definition rotate_updater :: "nat \<Rightarrow> real \<Rightarrow> real list \<Rightarrow> js_error + real list" where
  "rotate_updater sel delta prev =
    (let newAngles = prev[sel := prev ! sel + delta]
     in if length limits \<le> sel then Inl TypeError
        else Inr (newAngles[sel := max (fst (limits ! sel)) (min (snd (limits ! sel)) (newAngles ! sel))]))"

definition handleKeyDown :: "string \<Rightarrow> arm_state \<Rightarrow> js_error + arm_state" where
  "handleKeyDown key st =
    (if ''1'' \<le> key \<and> key \<le> ''7'' then
       Inr (st\<lparr>selectedJoint := parseInt key - 1\<rparr>)
     else
       (case (if key = ''ArrowUp'' \<or> key = ''ArrowDown'' then
                (let delta = (if key = ''ArrowUp'' then 0.1 else - 0.1)
                 in case rotate_updater (selectedJoint st) delta (jointAngles st) of
                      Inl e \<Rightarrow> Inl e
                    | Inr newAngles \<Rightarrow> Inr (st\<lparr>jointAngles := newAngles\<rparr>))
              else Inr st) of
          Inl e \<Rightarrow> Inl e
        | Inr st1 \<Rightarrow>
            if key = ''r'' \<or> key = ''R'' then
              Inr (st1\<lparr>jointAngles := [0, 0, 0, 0, 0, 0, 0], selectedJoint := 0\<rparr>)
            else Inr st1))"

fun press_keys :: "string list \<Rightarrow> arm_state \<Rightarrow> js_error + arm_state" where
  "press_keys [] st = Inr st"
| "press_keys (key # keys) st =
     (case handleKeyDown key st of Inl e \<Rightarrow> Inl e | Inr st1 \<Rightarrow> press_keys keys st1)"

definition arm_within_limits :: "real list \<Rightarrow> bool" where
  "arm_within_limits q = list_all2 (\<lambda>angle lim. fst lim \<le> angle \<and> angle \<le> snd lim) q limits"

section \<open>Forward kinematics\<close>

lemma upt4: "[0..<4] = [0, 1, 2, 3]"
  by (simp add: upt_rec)

lemma upt7: "[0..<7] = [0, 1, 2, 3, 4, 5, 6]"
  by (simp add: upt_rec)

lemma sum4: "(\<Sum>k<4. f k) = f 0 + f 1 + f 2 + f (3::nat)"
  by (simp add: eval_nat_numeral)

lemma rows_of_multiply: "rows_of (multiplyMatrices a b) = mat_mul (rows_of a) (rows_of b)"
  by (simp add: rows_of_def mat_mul_def multiplyMatrices_def Let_def upt4 sum4)

lemma rows_of_identity: "rows_of identity_m4 = mat_identity"
  by (simp add: rows_of_def identity_m4_def set_m4_def mat_identity_def upt4)

lemma rows_of_translation: "rows_of (makeTranslation x y z) = translation x y z"
  by (simp add: rows_of_def makeTranslation_def set_m4_def translation_def upt4)

lemma rows_of_dh_Ti:
  "rows_of (dh_Ti q i) =
     dh_transform (q ! i) (dh_d FRANKA_DH ! i) (dh_a FRANKA_DH ! i) (dh_alpha FRANKA_DH ! i)"
  by (simp add: rows_of_def dh_Ti_def set_m4_def Let_def dh_transform_def mat_mul_def
      rot_z_def rot_x_def translation_def upt4 sum4)

lemma position_rows: "setFromMatrixPosition e = translation_of (rows_of e)"
  by (simp add: setFromMatrixPosition_def translation_of_def rows_of_def upt4)

lemma rows_of_chain:
  "rows_of (foldl (\<lambda>T i. multiplyMatrices T (dh_Ti q i)) T0 js) =
   foldl (\<lambda>M i. mat_mul M (dh_transform (q ! i) (dh_d FRANKA_DH ! i)
                                      (dh_a FRANKA_DH ! i) (dh_alpha FRANKA_DH ! i)))
         (rows_of T0) js"
  by (induction js arbitrary: T0) (simp_all add: rows_of_multiply rows_of_dh_Ti)

lemmas fk_defs = forwardKinematics_def dh_Ti_def FRANKA_DH_def identity_m4_def set_m4_def
  makeTranslation_def multiplyMatrices_def setFromMatrixPosition_def Let_def

lemma fk_zero_pose: "forwardKinematics [0, 0, 0, 0, 0, 0, 0] = Vec3 0.088 (- 0.068) 0.226"
  by (simp add: fk_defs upt7)

lemma fk_home_pose: "forwardKinematics home_pose = Vec3 (- 0.296) 0.316 0.226"
  by (simp add: fk_defs upt7 home_pose_def)

text \<open>
  Claim C4. For every joint-angle vector of seven entries, \<open>forwardKinematics\<close> returns the
  translation part of the transform obtained from the identity by multiplying from the right
  with the Denavit-Hartenberg transform of each joint in order and then with the translation
  by (0, 0, 0.107). The result depends on the angles and the constants of the chain only.
\<close>

theorem forwardKinematics_refines_spec:
  assumes "length angles = 7"
  shows "forwardKinematics angles = spec_forward_kinematics angles"
  by (simp add: forwardKinematics_def spec_forward_kinematics_def Let_def position_rows
      rows_of_multiply rows_of_chain rows_of_identity rows_of_translation)

theorem forwardKinematics_refines_spec_witness:
  "length home_pose = 7 \<and> forwardKinematics home_pose = spec_forward_kinematics home_pose"
  using forwardKinematics_refines_spec [of home_pose] by (simp add: home_pose_def)

section \<open>The solver\<close>

lemma foldl_pointwise_prefix:
  "k \<le> length q \<Longrightarrow>
   foldl (\<lambda>xs j. xs[j := g j (xs ! j)]) q [0..<k] = map (\<lambda>j. g j (q ! j)) [0..<k] @ drop k q"
proof (induction k)
  case 0
  then show ?case by simp
next
  case (Suc k)
  then have k: "k < length q" by simp
  have "(map (\<lambda>j. g j (q ! j)) [0..<k] @ drop k q)[k := g k (q ! k)]
        = map (\<lambda>j. g j (q ! j)) [0..<k] @ (drop k q)[0 := g k (q ! k)]"
    by (simp add: list_update_append)
  also have "(drop k q)[0 := g k (q ! k)] = g k (q ! k) # drop (Suc k) q"
    using k by (simp add: Cons_nth_drop_Suc [symmetric])
  finally show ?case using Suc k by (simp add: nth_append)
qed

lemma foldl_pointwise:
  "foldl (\<lambda>xs j. xs[j := g j (xs ! j)]) q [0..<length q] = map (\<lambda>j. g j (q ! j)) [0..<length q]"
  by (simp add: foldl_pointwise_prefix)

lemma update_joint_pointwise:
  "update_joint jacobian err adaptiveStep xs j =
     xs[j := clampJoint (xs ! j + dot (jacobian ! j) err * adaptiveStep * (if j < 3 then 1 else 0.8) / (1 + 0.5 * 0.5)) j]"
  by (cases "j < length xs") (simp_all add: update_joint_def Let_def list_update_beyond)

lemma update_fold:
  assumes "length q = 7"
  shows "foldl (update_joint J e s) q [0..<7]
       = map (\<lambda>j. clampJoint (q ! j + dot (J ! j) e * s * (if j < 3 then 1 else 0.8) / (1 + 0.5 * 0.5)) j) [0..<7]"
  using foldl_pointwise [of "\<lambda>j x. clampJoint (x + dot (J ! j) e * s * (if j < 3 then 1 else 0.8) / (1 + 0.5 * 0.5)) j" q]
  unfolding assms by (simp add: update_joint_pointwise [abs_def])

lemma joint_cases: "j < 7 \<Longrightarrow> j = 0 \<or> j = 1 \<or> j = 2 \<or> j = 3 \<or> j = 4 \<or> j = 5 \<or> j = (6::nat)"
  by arith

lemma limits_ordered: "j < 7 \<Longrightarrow> fst (JOINT_LIMITS ! j) \<le> snd (JOINT_LIMITS ! j)"
  by (drule joint_cases, elim disjE) (simp_all add: JOINT_LIMITS_def)

lemma length_JOINT_LIMITS: "length JOINT_LIMITS = 7"
  by (simp add: JOINT_LIMITS_def)

lemma within_limits_length: "within_limits q \<Longrightarrow> length q = 7"
  by (simp add: within_limits_def list_all2_lengthD length_JOINT_LIMITS)

lemma within_limits_home: "within_limits home_pose"
  using pi_ge_two pi_half_less_two by (simp add: within_limits_def home_pose_def JOINT_LIMITS_def)

lemma clampJoint_spec:
  "fst (JOINT_LIMITS ! j) \<le> snd (JOINT_LIMITS ! j) \<Longrightarrow> clampJoint x j = spec_clamp j x"
  by (simp add: clampJoint_def spec_clamp_def max_def min_def)

lemma clampJoint_bounds:
  "j < 7 \<Longrightarrow> fst (JOINT_LIMITS ! j) \<le> clampJoint x j \<and> clampJoint x j \<le> snd (JOINT_LIMITS ! j)"
  using limits_ordered [of j] by (simp add: clampJoint_def)

lemma jacobian_column_spec:
  "jacobian_column q (forwardKinematics q) j = spec_jacobian_column q j"
  by (simp add: jacobian_column_def spec_jacobian_column_def Let_def divideScalar_def
      multiplyScalar_def subVectors_def)

text \<open>
  Claim C3. One pass of the loop of \<open>solveIK\<close> computes the position by forward kinematics,
  stops when the error is shorter than 0.002, and otherwise moves every joint \<open>j\<close> by
  (column \<open>j\<close> of the finite-difference Jacobian with delta 0.0001, dotted with the error)
  times min(0.15, 0.5 times the error length) times the weight of the joint (1 for joints
  0 to 2, 0.8 for joints 3 to 6) over 1 + 0.5 squared, clamped to the limits of the joint.
  All columns are taken at the angles the pass started from.
\<close>

theorem ik_iteration_refines_spec:
  assumes "length q = 7"
  shows "ik_iteration target q = spec_iteration target q"
proof -
  let ?cur = "forwardKinematics q"
  let ?e = "subVectors target ?cur"
  let ?J = "map (jacobian_column q ?cur) [0..<7]"
  let ?s = "min 0.15 (0.5 * vlength ?e)"
  have pt: "clampJoint (q ! j + dot (?J ! j) ?e * ?s * (if j < 3 then 1 else 0.8) / (1 + 0.5 * 0.5)) j
      = spec_clamp j (q ! j + dot (spec_jacobian_column q j) ?e * ?s * spec_weight j / (1 + 0.5\<^sup>2))"
    if "j \<in> set [0..<7]" for j
  proof -
    from that have j: "j < 7" by simp
    then have "?J ! j = spec_jacobian_column q j" by (simp add: jacobian_column_spec)
    moreover have "(if j < 3 then 1 else 0.8) = spec_weight j" by (auto simp: spec_weight_def)
    ultimately show ?thesis
      using limits_ordered [OF j] by (simp add: clampJoint_spec power2_eq_square)
  qed
  have "foldl (update_joint ?J ?e ?s) q [0..<7]
      = map (\<lambda>j. spec_clamp j (q ! j + dot (spec_jacobian_column q j) ?e * ?s * spec_weight j / (1 + 0.5\<^sup>2))) [0..<7]"
    unfolding update_fold [OF assms] by (rule map_cong [OF refl pt])
  then show ?thesis
    by (simp add: ik_iteration_def spec_iteration_def Let_def)
qed

theorem ik_iteration_refines_spec_witness:
  "length home_pose = 7
   \<and> ik_iteration (Vec3 0.3 0 0.5) home_pose = spec_iteration (Vec3 0.3 0 0.5) home_pose"
  using ik_iteration_refines_spec [of home_pose "Vec3 0.3 0 0.5"] by (simp add: home_pose_def)

lemma ik_iteration_within_limits:
  assumes "length q = 7" and "ik_iteration target q = Some q'"
  shows "within_limits q'"
proof -
  from assms(2) obtain J e s where "q' = foldl (update_joint J e s) q [0..<7]"
    by (auto simp: ik_iteration_def Let_def split: if_splits)
  then have q': "q' = map (\<lambda>j. clampJoint (q ! j + dot (J ! j) e * s * (if j < 3 then 1 else 0.8) / (1 + 0.5 * 0.5)) j) [0..<7]"
    by (simp only: update_fold [OF assms(1)])
  show ?thesis
    unfolding within_limits_def q'
    by (simp add: list_all2_conv_all_nth length_JOINT_LIMITS clampJoint_bounds)
qed

lemma ik_loop_within_limits:
  "within_limits q \<Longrightarrow> within_limits (snd (ik_loop n target iter q))"
proof (induction n arbitrary: iter q)
  case 0
  then show ?case by simp
next
  case (Suc n)
  show ?case
  proof (cases "ik_iteration target q")
    case None
    with Suc.prems show ?thesis by simp
  next
    case (Some q')
    have "within_limits q'"
      using ik_iteration_within_limits [OF within_limits_length [OF Suc.prems] Some] .
    with Some Suc.IH show ?thesis by simp
  qed
qed

lemma ik_loop_counter: "fst (ik_loop n target iter q) \<le> iter + n"
proof (induction n arbitrary: iter q)
  case 0
  then show ?case by simp
next
  case (Suc n)
  show ?case
  proof (cases "ik_iteration target q")
    case None
    then show ?thesis by simp
  next
    case (Some q')
    with Suc.IH [of "iter + 1" q'] show ?thesis by simp
  qed
qed

text \<open>
  Claim C2. For every target, reachable or not, and every seed within the joint limits,
  \<open>solveIK\<close> returns a configuration after at most \<open>maxIterations\<close> passes of its loop, and
  the configuration lies within the joint limits. The function is total and its result is
  an array: it has no error result.
\<close>

theorem solveIK_bounded_within_limits:
  assumes "within_limits seed"
  shows "solveIK_passes target seed maxIterations \<le> maxIterations
       \<and> within_limits (solveIK target seed maxIterations)"
  using ik_loop_counter [of maxIterations target 0 seed] ik_loop_within_limits [OF assms]
  by (simp add: solveIK_def solveIK_passes_def)

text \<open>The witness takes a target 85.5 m away, a hundred times the reach of the arm.\<close>

theorem solveIK_bounded_within_limits_witness:
  "within_limits home_pose
   \<and> solveIK_passes (Vec3 85.5 0 0) home_pose 20 \<le> 20
   \<and> within_limits (solveIK (Vec3 85.5 0 0) home_pose 20)"
  using solveIK_bounded_within_limits [OF within_limits_home, of "Vec3 85.5 0 0" 20]
    within_limits_home by simp

lemma vlength_sub_self: "vlength (subVectors p p) = 0"
  by (simp add: vlength_def subVectors_def)

lemma solveIK_at_target: "solveIK (forwardKinematics q) q n = q"
proof -
  have "ik_iteration (forwardKinematics q) q = None"
    by (simp add: ik_iteration_def Let_def vlength_sub_self)
  then show ?thesis
    by (cases n) (simp_all add: solveIK_def)
qed

text \<open>
  Claim C7. For every joint configuration \<open>q\<close> within limits, the position reached by the
  configuration that \<open>solveIK\<close> returns for the target \<open>forwardKinematics q\<close> and the seed
  \<open>q\<close> is closer than 0.002 to \<open>forwardKinematics q\<close>: the first pass finds the error 0 and
  the solver returns the seed.
\<close>

theorem fk_ik_round_trip:
  assumes "within_limits q"
  shows "vlength (subVectors (forwardKinematics (solveIK (forwardKinematics q) q n))
                             (forwardKinematics q)) < 0.002"
  by (simp add: solveIK_at_target vlength_sub_self)

theorem fk_ik_round_trip_witness:
  "within_limits home_pose
   \<and> vlength (subVectors (forwardKinematics (solveIK (forwardKinematics home_pose) home_pose 20))
                         (forwardKinematics home_pose)) < 0.002"
  using fk_ik_round_trip [OF within_limits_home, of 20] within_limits_home by simp

section \<open>Stability of the limits under the operations\<close>









lemma length_limits: "length limits = 7"
  by (simp add: limits_def)

lemma arm_limits_ordered: "j < 7 \<Longrightarrow> fst (limits ! j) \<le> snd (limits ! j)"
  by (drule joint_cases, elim disjE) (simp_all add: limits_def)

text \<open>The arrow keys keep a configuration of the keyboard-driven arm within the limits.\<close>

lemma rotate_updater_within_limits:
  assumes "arm_within_limits prev" and "sel < 7"
  shows "\<exists>q. rotate_updater sel delta prev = Inr q \<and> arm_within_limits q"
proof -
  have len: "length prev = 7"
    using assms(1) by (simp add: arm_within_limits_def list_all2_lengthD length_limits)
  let ?v = "max (fst (limits ! sel)) (min (snd (limits ! sel)) (prev ! sel + delta))"
  have r: "rotate_updater sel delta prev = Inr (prev[sel := ?v])"
    using assms(2) len by (simp add: rotate_updater_def Let_def length_limits)
  have v: "fst (limits ! sel) \<le> ?v \<and> ?v \<le> snd (limits ! sel)"
    using arm_limits_ordered [OF assms(2)] by simp
  have old: "fst (limits ! i) \<le> prev ! i \<and> prev ! i \<le> snd (limits ! i)" if "i < 7" for i
    using assms(1) that len by (simp add: arm_within_limits_def list_all2_conv_all_nth)
  have "fst (limits ! i) \<le> prev[sel := ?v] ! i \<and> prev[sel := ?v] ! i \<le> snd (limits ! i)"
    if "i < 7" for i
  proof (cases "i = sel")
    case True
    with v len that show ?thesis by (simp only: nth_list_update_eq)
  next
    case False
    with old [OF that] show ?thesis by simp
  qed
  then have "arm_within_limits (prev[sel := ?v])"
    using len by (simp add: arm_within_limits_def list_all2_conv_all_nth length_limits)
  with r show ?thesis by simp
qed

lemma parseInt_4: "parseInt ''4'' = 4"
  by (simp add: parseInt_def is_digit_def digit_value_def)

text \<open>
  Claim C1 asks that every stored joint angle lie within the limits of its joint after any
  sequence of manual and solver-driven operations. The reset key does not keep it: with
  joint 4 selected and turned down once, the configuration of the keyboard-driven arm is
  within the limits; the key R then stores 0 for every joint, and 0 lies above -0.0698, the
  upper limit that the same handler declares for joint 4.
\<close>

theorem reset_leaves_joint_limits:
  "press_keys [''4'', ''ArrowDown''] arm_init
     = Inr \<lparr>jointAngles = [0, 0, 0, - 0.1, 0, 0, 0], selectedJoint = 3\<rparr>
   \<and> arm_within_limits [0, 0, 0, - 0.1, 0, 0, 0]
   \<and> press_keys [''4'', ''ArrowDown'', ''R''] arm_init
     = Inr \<lparr>jointAngles = [0, 0, 0, 0, 0, 0, 0], selectedJoint = 0\<rparr>
   \<and> \<not> arm_within_limits [0, 0, 0, 0, 0, 0, 0]"
  by (simp add: handleKeyDown_def arm_init_def parseInt_4 rotate_updater_def limits_def
      arm_within_limits_def)

section \<open>Reset\<close>

text \<open>
  Claim C6 says that the key R sets every joint to the home pose (0, 0, 0, -pi/2, 0, pi/2, 0)
  and selects joint 0. The handler does select joint 0, but the configuration it stores holds
  0 for every joint: after the keys 2, ArrowUp and R the stored configuration is not the home
  pose.
\<close>

theorem reset_stores_zeros_not_home_pose:
  "press_keys [''2'', ''ArrowUp''] arm_init
     = Inr \<lparr>jointAngles = [0, 0.1, 0, 0, 0, 0, 0], selectedJoint = 1\<rparr>
   \<and> press_keys [''2'', ''ArrowUp'', ''R''] arm_init
     = Inr \<lparr>jointAngles = [0, 0, 0, 0, 0, 0, 0], selectedJoint = 0\<rparr>
   \<and> press_keys [''2'', ''ArrowUp'', ''R''] arm_init
     \<noteq> Inr \<lparr>jointAngles = home_pose, selectedJoint = 0\<rparr>"
  by (simp add: handleKeyDown_def arm_init_def parseInt_def is_digit_def digit_value_def
      rotate_updater_def limits_def home_pose_def)

section \<open>Storing the solved configuration\<close>





section \<open>Smoothing\<close>













section \<open>What the calls write\<close>

lemma unchanged_below_refl: "unchanged_below b h h"
  by (simp add: unchanged_below_def)

lemma unchanged_below_trans:
  "unchanged_below b h1 h2 \<Longrightarrow> unchanged_below b h2 h3 \<Longrightarrow> unchanged_below b h1 h3"
  by (auto simp: unchanged_below_def)

lemma unchanged_below_next: "unchanged_below b h h' \<Longrightarrow> b \<le> next_addr h \<Longrightarrow> b \<le> next_addr h'"
  by (simp add: unchanged_below_def)

lemma alloc_fst: "fst (alloc xs h) = next_addr h"
  by (simp add: alloc_def)

lemma alloc_unchanged: "b \<le> next_addr h \<Longrightarrow> unchanged_below b h (snd (alloc xs h))"
  by (simp add: alloc_def unchanged_below_def)

lemma store_array_unchanged: "b \<le> p \<Longrightarrow> unchanged_below b h (store_array p xs h)"
  by (simp add: store_array_def unchanged_below_def)

lemma store_elem_unchanged: "b \<le> p \<Longrightarrow> unchanged_below b h (store_elem p j v h)"
  by (simp add: store_elem_def store_array_unchanged)

lemma fk_joint_st_unchanged:
  assumes "b \<le> T" and "b \<le> next_addr h"
  shows "unchanged_below b h (fk_joint_st angles T h i)"
proof -
  obtain Ti h1 where a: "alloc identity_m4 h = (Ti, h1)" by (cases "alloc identity_m4 h")
  then have Ti: "Ti = next_addr h" and h1: "unchanged_below b h h1"
    using alloc_fst [of identity_m4 h] alloc_unchanged [OF assms(2), of identity_m4] by simp_all
  let ?h2 = "store_array Ti (dh_Ti (load h1 angles) i) h1"
  have "unchanged_below b h1 ?h2" using Ti assms(2) by (simp add: store_array_unchanged)
  moreover have "unchanged_below b ?h2 (store_array T (multiplyMatrices (load ?h2 T) (load ?h2 Ti)) ?h2)"
    using assms(1) by (rule store_array_unchanged)
  ultimately show ?thesis
    using h1 a by (auto simp: fk_joint_st_def Let_def intro: unchanged_below_trans)
qed

lemma fk_joints_unchanged:
  "b \<le> T \<Longrightarrow> b \<le> next_addr h \<Longrightarrow> unchanged_below b h (foldl (fk_joint_st angles T) h js)"
proof (induction js arbitrary: h)
  case Nil
  then show ?case by (simp add: unchanged_below_refl)
next
  case (Cons i js)
  have step: "unchanged_below b h (fk_joint_st angles T h i)"
    using Cons.prems by (rule fk_joint_st_unchanged)
  then have "b \<le> next_addr (fk_joint_st angles T h i)"
    using Cons.prems(2) by (rule unchanged_below_next)
  then have "unchanged_below b (fk_joint_st angles T h i) (foldl (fk_joint_st angles T) (fk_joint_st angles T h i) js)"
    using Cons.IH Cons.prems(1) by blast
  with step show ?case by (auto intro: unchanged_below_trans)
qed

lemma forwardKinematics_st_unchanged:
  assumes "b \<le> next_addr h"
  shows "unchanged_below b h (snd (forwardKinematics_st angles h))"
proof -
  obtain T h1 where a1: "alloc identity_m4 h = (T, h1)" by (cases "alloc identity_m4 h")
  then have T: "T = next_addr h" and u1: "unchanged_below b h h1"
    using alloc_fst [of identity_m4 h] alloc_unchanged [OF assms, of identity_m4] by simp_all
  have bT: "b \<le> T" using T assms by simp
  let ?h2 = "store_array T identity_m4 h1"
  have u2: "unchanged_below b h ?h2"
    using u1 store_array_unchanged [OF bT] by (rule unchanged_below_trans)
  let ?h3 = "foldl (fk_joint_st angles T) ?h2 [0..<7]"
  have "b \<le> next_addr ?h2" using u2 assms by (rule unchanged_below_next)
  then have "unchanged_below b ?h2 ?h3" using bT by (intro fk_joints_unchanged)
  with u2 have u3: "unchanged_below b h ?h3" by (rule unchanged_below_trans)
  obtain eeOffset h4 where a4: "alloc identity_m4 ?h3 = (eeOffset, h4)" by (cases "alloc identity_m4 ?h3")
  have b3: "b \<le> next_addr ?h3" using u3 assms by (rule unchanged_below_next)
  then have ee: "b \<le> eeOffset" and "unchanged_below b ?h3 h4"
    using a4 alloc_fst [of identity_m4 ?h3] alloc_unchanged [OF b3, of identity_m4] by simp_all
  with u3 have u4: "unchanged_below b h h4" by (auto intro: unchanged_below_trans)
  let ?h5 = "store_array eeOffset (makeTranslation 0 0 0.107) h4"
  have u5: "unchanged_below b h ?h5"
    using u4 store_array_unchanged [OF ee] by (rule unchanged_below_trans)
  have "unchanged_below b h (store_array T (multiplyMatrices (load ?h5 T) (load ?h5 eeOffset)) ?h5)"
    using u5 store_array_unchanged [OF bT] by (rule unchanged_below_trans)
  then show ?thesis
    using a1 a4 by (simp add: forwardKinematics_st_def Let_def)
qed

lemma jacobian_column_st_unchanged:
  assumes "b \<le> next_addr (snd acc)"
  shows "unchanged_below b (snd acc) (snd (jacobian_column_st newAngles currentPos acc j))"
proof -
  let ?h = "snd acc"
  obtain tempAngles h1 where a: "alloc (load ?h newAngles) ?h = (tempAngles, h1)"
    by (cases "alloc (load ?h newAngles) ?h")
  then have t: "b \<le> tempAngles" and u1: "unchanged_below b ?h h1"
    using alloc_fst [of "load ?h newAngles" ?h] alloc_unchanged [OF assms, of "load ?h newAngles"] assms
    by simp_all
  let ?h2 = "store_elem tempAngles j (load h1 tempAngles ! j + 0.0001) h1"
  have u2: "unchanged_below b ?h ?h2"
    using u1 store_elem_unchanged [OF t] by (rule unchanged_below_trans)
  then have "b \<le> next_addr ?h2" using assms by (rule unchanged_below_next)
  then have "unchanged_below b ?h2 (snd (forwardKinematics_st tempAngles ?h2))"
    by (rule forwardKinematics_st_unchanged)
  with u2 have "unchanged_below b ?h (snd (forwardKinematics_st tempAngles ?h2))"
    by (rule unchanged_below_trans)
  then show ?thesis
    using a by (simp add: jacobian_column_st_def Let_def split_beta)
qed

lemma jacobian_st_unchanged:
  "b \<le> next_addr (snd acc) \<Longrightarrow>
   unchanged_below b (snd acc) (snd (foldl (jacobian_column_st newAngles currentPos) acc js))"
proof (induction js arbitrary: acc)
  case Nil
  then show ?case by (simp add: unchanged_below_refl)
next
  case (Cons j js)
  let ?acc = "jacobian_column_st newAngles currentPos acc j"
  have step: "unchanged_below b (snd acc) (snd ?acc)"
    using Cons.prems by (rule jacobian_column_st_unchanged)
  then have "b \<le> next_addr (snd ?acc)" using Cons.prems by (rule unchanged_below_next)
  then have "unchanged_below b (snd ?acc) (snd (foldl (jacobian_column_st newAngles currentPos) ?acc js))"
    by (rule Cons.IH)
  with step show ?case by (auto intro: unchanged_below_trans)
qed

lemma update_joint_st_unchanged:
  assumes "b \<le> newAngles"
  shows "unchanged_below b h (update_joint_st jacobian err adaptiveStep newAngles h j)"
  unfolding update_joint_st_def Let_def
  by (rule unchanged_below_trans [OF store_elem_unchanged [OF assms] store_elem_unchanged [OF assms]])

lemma updates_st_unchanged:
  "b \<le> newAngles \<Longrightarrow>
   unchanged_below b h (foldl (update_joint_st jacobian err adaptiveStep newAngles) h js)"
proof (induction js arbitrary: h)
  case Nil
  then show ?case by (simp add: unchanged_below_refl)
next
  case (Cons j js)
  let ?h1 = "update_joint_st jacobian err adaptiveStep newAngles h j"
  have "unchanged_below b h ?h1"
    using Cons.prems by (rule update_joint_st_unchanged)
  moreover have "unchanged_below b ?h1 (foldl (update_joint_st jacobian err adaptiveStep newAngles) ?h1 js)"
    using Cons.prems by (rule Cons.IH)
  ultimately show ?case by (auto intro: unchanged_below_trans)
qed

lemma ik_iteration_st_unchanged:
  assumes "b \<le> newAngles" and "b \<le> next_addr h"
  shows "unchanged_below b h (snd (ik_iteration_st targetPos newAngles h))"
proof -
  obtain currentPos h1 where f: "forwardKinematics_st newAngles h = (currentPos, h1)"
    by (cases "forwardKinematics_st newAngles h")
  then have u1: "unchanged_below b h h1"
    using forwardKinematics_st_unchanged [OF assms(2), of newAngles] by simp
  then have b1: "b \<le> next_addr h1" using assms(2) by (rule unchanged_below_next)
  obtain jacobian h2 where j: "foldl (jacobian_column_st newAngles currentPos) ([], h1) [0..<7] = (jacobian, h2)"
    by (cases "foldl (jacobian_column_st newAngles currentPos) ([], h1) [0..<7]")
  have "unchanged_below b h1 h2"
    using jacobian_st_unchanged [of b "([], h1)" newAngles currentPos "[0..<7]"] b1 j by simp
  with u1 have u2: "unchanged_below b h h2" by (rule unchanged_below_trans)
  have "unchanged_below b h (foldl (update_joint_st jacobian err s newAngles) h2 [0..<7])" for err s
    using u2 updates_st_unchanged [OF assms(1)] by (rule unchanged_below_trans)
  then show ?thesis
    using f j u1 by (simp add: ik_iteration_st_def Let_def)
qed

lemma ik_loop_st_unchanged:
  "b \<le> newAngles \<Longrightarrow> b \<le> next_addr h \<Longrightarrow>
   unchanged_below b h (ik_loop_st n targetPos newAngles h)"
proof (induction n arbitrary: h)
  case 0
  then show ?case by (simp add: unchanged_below_refl)
next
  case (Suc n)
  obtain go h1 where it: "ik_iteration_st targetPos newAngles h = (go, h1)"
    by (cases "ik_iteration_st targetPos newAngles h")
  then have u1: "unchanged_below b h h1"
    using ik_iteration_st_unchanged [OF Suc.prems, of targetPos] by simp
  then have "b \<le> next_addr h1" using Suc.prems(2) by (rule unchanged_below_next)
  then have "unchanged_below b h1 (ik_loop_st n targetPos newAngles h1)"
    using Suc.IH Suc.prems(1) by blast
  with u1 have "unchanged_below b h (ik_loop_st n targetPos newAngles h1)"
    by (rule unchanged_below_trans)
  with u1 it show ?case by (cases go) simp_all
qed

lemma solveIK_st_unchanged:
  "unchanged_below (next_addr h) h (snd (solveIK_st targetPos currentAngles iterations h))"
proof -
  let ?b = "next_addr h"
  obtain newAngles h1 where a: "alloc (load h currentAngles) h = (newAngles, h1)"
    by (cases "alloc (load h currentAngles) h")
  then have n: "?b \<le> newAngles" and u1: "unchanged_below ?b h h1"
    using alloc_fst [of "load h currentAngles" h] alloc_unchanged [of ?b h "load h currentAngles"]
    by simp_all
  then have "?b \<le> next_addr h1" by (simp add: unchanged_below_def)
  then have "unchanged_below ?b h1 (ik_loop_st iterations targetPos newAngles h1)"
    using n by (intro ik_loop_st_unchanged)
  with u1 show ?thesis
    using a by (auto simp: solveIK_st_def intro: unchanged_below_trans)
qed

subsection \<open>The store model computes what the functions compute\<close>

lemma load_unchanged: "unchanged_below b h h' \<Longrightarrow> p < b \<Longrightarrow> load h' p = load h p"
  by (simp add: unchanged_below_def load_def)

lemma load_alloc_new: "load (snd (alloc xs h)) (next_addr h) = xs"
  by (simp add: alloc_def load_def)

lemma load_alloc_old: "p < next_addr h \<Longrightarrow> load (snd (alloc xs h)) p = load h p"
  by (simp add: alloc_def load_def)

lemma next_alloc: "next_addr (snd (alloc xs h)) = next_addr h + 1"
  by (simp add: alloc_def)

lemma load_store_array: "load (store_array p xs h) p' = (if p' = p then xs else load h p')"
  by (simp add: store_array_def load_def)

lemma load_store_same: "load (store_array p xs h) p = xs"
  by (simp add: load_store_array)

lemma next_store_array: "next_addr (store_array p xs h) = next_addr h"
  by (simp add: store_array_def)

lemma load_store_elem: "load (store_elem p j v h) p' = (if p' = p then (load h p)[j := v] else load h p')"
  by (simp add: store_elem_def load_store_array)

lemma next_store_elem: "next_addr (store_elem p j v h) = next_addr h"
  by (simp add: store_elem_def next_store_array)

lemma fk_joint_st_value:
  assumes "angles < next_addr h" "T < next_addr h" "angles \<noteq> T"
  shows "load (fk_joint_st angles T h i) T = multiplyMatrices (load h T) (dh_Ti (load h angles) i)
       \<and> load (fk_joint_st angles T h i) angles = load h angles
       \<and> next_addr h \<le> next_addr (fk_joint_st angles T h i)"
  using assms
  by (simp add: fk_joint_st_def alloc_def Let_def load_store_array next_store_array load_def store_array_def)

lemma fk_joints_value:
  "angles < next_addr h \<Longrightarrow> T < next_addr h \<Longrightarrow> angles \<noteq> T \<Longrightarrow>
   load (foldl (fk_joint_st angles T) h js) T
     = foldl (\<lambda>M i. multiplyMatrices M (dh_Ti (load h angles) i)) (load h T) js
   \<and> load (foldl (fk_joint_st angles T) h js) angles = load h angles
   \<and> next_addr h \<le> next_addr (foldl (fk_joint_st angles T) h js)"
proof (induction js arbitrary: h)
  case Nil
  then show ?case by simp
next
  case (Cons i js)
  let ?h1 = "fk_joint_st angles T h i"
  note s = fk_joint_st_value [OF Cons.prems, of i]
  have "angles < next_addr ?h1" "T < next_addr ?h1" using s Cons.prems by simp_all
  from Cons.IH [OF this Cons.prems(3)] s show ?case by simp
qed

lemma forwardKinematics_st_value:
  assumes "angles < next_addr h"
  shows "fst (forwardKinematics_st angles h) = forwardKinematics (load h angles)"
proof -
  let ?T = "next_addr h"
  let ?h2 = "store_array ?T identity_m4 (snd (alloc identity_m4 h))"
  let ?h3 = "foldl (fk_joint_st angles ?T) ?h2 [0..<7]"
  have pre: "angles < next_addr ?h2" "?T < next_addr ?h2" "angles \<noteq> ?T"
    using assms by (simp_all add: next_store_array next_alloc)
  have h2: "load ?h2 ?T = identity_m4" "load ?h2 angles = load h angles"
    using assms by (simp_all add: load_store_array load_alloc_old)
  note v = fk_joints_value [OF pre, of "[0..<7]"]
  have T3: "load ?h3 ?T = foldl (\<lambda>M i. multiplyMatrices M (dh_Ti (load h angles) i)) identity_m4 [0..<7]"
    using v h2 by simp
  have lt: "?T < next_addr ?h3" using v pre(2) by simp
  let ?ee = "next_addr ?h3"
  let ?h5 = "store_array ?ee (makeTranslation 0 0 0.107) (snd (alloc identity_m4 ?h3))"
  have h5: "load ?h5 ?T = load ?h3 ?T" "load ?h5 ?ee = makeTranslation 0 0 0.107"
    using lt by (simp_all add: load_store_array load_alloc_old)
  let ?h6 = "store_array ?T (multiplyMatrices (load ?h5 ?T) (load ?h5 ?ee)) ?h5"
  have "fst (forwardKinematics_st angles h) = setFromMatrixPosition (load ?h6 ?T)"
    by (simp add: forwardKinematics_st_def Let_def alloc_fst split_beta)
  also have "load ?h6 ?T = multiplyMatrices (load ?h5 ?T) (load ?h5 ?ee)"
    by (rule load_store_same)
  also have "\<dots> = multiplyMatrices
       (foldl (\<lambda>M i. multiplyMatrices M (dh_Ti (load h angles) i)) identity_m4 [0..<7])
       (makeTranslation 0 0 0.107)"
    by (simp only: h5 T3)
  finally show ?thesis
    by (simp add: forwardKinematics_def Let_def)
qed

lemma jacobian_column_st_value:
  assumes "newAngles < next_addr (snd acc)"
  shows "fst (jacobian_column_st newAngles currentPos acc j)
           = fst acc @ [jacobian_column (load (snd acc) newAngles) currentPos j]"
proof -
  let ?h = "snd acc"
  let ?q = "load ?h newAngles"
  let ?t = "next_addr ?h"
  let ?h1 = "snd (alloc ?q ?h)"
  let ?h2 = "store_elem ?t j (load ?h1 ?t ! j + 0.0001) ?h1"
  have "load ?h2 ?t = ?q[j := ?q ! j + 0.0001]"
    by (simp add: load_store_elem load_alloc_new)
  moreover have "?t < next_addr ?h2"
    by (simp add: next_store_elem next_alloc)
  ultimately have "fst (forwardKinematics_st ?t ?h2) = forwardKinematics (?q[j := ?q ! j + 0.0001])"
    by (simp add: forwardKinematics_st_value)
  then show ?thesis
    by (simp add: jacobian_column_st_def jacobian_column_def Let_def split_beta alloc_fst)
qed

lemma jacobian_column_st_keeps:
  assumes "newAngles < next_addr (snd acc)"
  shows "load (snd (jacobian_column_st newAngles currentPos acc j)) newAngles = load (snd acc) newAngles
       \<and> newAngles < next_addr (snd (jacobian_column_st newAngles currentPos acc j))"
  using jacobian_column_st_unchanged [of "next_addr (snd acc)" acc newAngles currentPos j] assms
  by (auto simp: load_unchanged unchanged_below_def)

lemma jacobian_st_value:
  "newAngles < next_addr (snd acc) \<Longrightarrow>
   fst (foldl (jacobian_column_st newAngles currentPos) acc js)
     = fst acc @ map (jacobian_column (load (snd acc) newAngles) currentPos) js"
proof (induction js arbitrary: acc)
  case Nil
  then show ?case by simp
next
  case (Cons j js)
  let ?acc = "jacobian_column_st newAngles currentPos acc j"
  note k = jacobian_column_st_keeps [OF Cons.prems, of currentPos j]
  from k have "newAngles < next_addr (snd ?acc)" by simp
  from Cons.IH [OF this] k jacobian_column_st_value [OF Cons.prems, of currentPos j]
  show ?case by simp
qed

lemma jacobian_st_keeps:
  assumes "newAngles < next_addr h"
  shows "load (snd (foldl (jacobian_column_st newAngles currentPos) (acc, h) js)) newAngles = load h newAngles
       \<and> newAngles < next_addr (snd (foldl (jacobian_column_st newAngles currentPos) (acc, h) js))"
  using jacobian_st_unchanged [of "next_addr h" "(acc, h)" newAngles currentPos js] assms
  by (auto simp: load_unchanged unchanged_below_def)

lemma update_joint_st_value:
  "load (update_joint_st jacobian err adaptiveStep newAngles h j) newAngles
     = update_joint jacobian err adaptiveStep (load h newAngles) j"
  by (simp add: update_joint_st_def update_joint_def Let_def load_store_elem)

lemma updates_st_value:
  "load (foldl (update_joint_st jacobian err adaptiveStep newAngles) h js) newAngles
     = foldl (update_joint jacobian err adaptiveStep) (load h newAngles) js"
  by (induction js arbitrary: h) (simp_all add: update_joint_st_value)

lemma forwardKinematics_st_keeps:
  assumes "p < next_addr h"
  shows "load (snd (forwardKinematics_st angles h)) p = load h p
       \<and> p < next_addr (snd (forwardKinematics_st angles h))"
  using forwardKinematics_st_unchanged [of "next_addr h" h angles] assms
  by (auto simp: load_unchanged unchanged_below_def)

lemma ik_iteration_st_value:
  assumes "newAngles < next_addr h"
  shows "(case ik_iteration targetPos (load h newAngles) of
            None \<Rightarrow> \<not> fst (ik_iteration_st targetPos newAngles h)
                     \<and> load (snd (ik_iteration_st targetPos newAngles h)) newAngles = load h newAngles
          | Some q' \<Rightarrow> fst (ik_iteration_st targetPos newAngles h)
                     \<and> load (snd (ik_iteration_st targetPos newAngles h)) newAngles = q')"
proof -
  let ?q = "load h newAngles"
  let ?cur = "forwardKinematics ?q"
  let ?h1 = "snd (forwardKinematics_st newAngles h)"
  have cur: "fst (forwardKinematics_st newAngles h) = ?cur"
    using assms by (rule forwardKinematics_st_value)
  note k1 = forwardKinematics_st_keeps [OF assms, of newAngles]
  then have lt1: "newAngles < next_addr ?h1" by simp
  let ?r = "foldl (jacobian_column_st newAngles ?cur) ([], ?h1) [0..<7]"
  have J: "fst ?r = map (jacobian_column ?q ?cur) [0..<7]"
    using jacobian_st_value [of newAngles "([], ?h1)" ?cur "[0..<7]"] lt1 k1 by simp
  have k2: "load (snd ?r) newAngles = ?q"
    using jacobian_st_keeps [OF lt1, of ?cur "[]" "[0..<7]"] k1 by simp
  show ?thesis
    by (simp add: ik_iteration_def ik_iteration_st_def Let_def split_beta cur J k1 k2 updates_st_value)
qed

lemma ik_iteration_st_next:
  assumes "newAngles < next_addr h"
  shows "newAngles < next_addr (snd (ik_iteration_st targetPos newAngles h))"
  using ik_iteration_st_unchanged [of 0 newAngles h targetPos] assms
  by (simp add: unchanged_below_def)

lemma ik_loop_st_value:
  "newAngles < next_addr h \<Longrightarrow>
   load (ik_loop_st n targetPos newAngles h) newAngles
     = snd (ik_loop n targetPos iter (load h newAngles))"
proof (induction n arbitrary: h iter)
  case 0
  then show ?case by simp
next
  case (Suc n)
  note v = ik_iteration_st_value [OF Suc.prems, of targetPos]
  note nx = ik_iteration_st_next [OF Suc.prems, of targetPos]
  obtain go h1 where it: "ik_iteration_st targetPos newAngles h = (go, h1)"
    by (cases "ik_iteration_st targetPos newAngles h")
  show ?case
  proof (cases "ik_iteration targetPos (load h newAngles)")
    case None
    with v it show ?thesis by simp
  next
    case (Some q')
    with v it have "go" "load h1 newAngles = q'" by simp_all
    moreover have "newAngles < next_addr h1" using nx it by simp
    ultimately show ?thesis using Some it Suc.IH [of h1 "iter + 1"] by simp
  qed
qed

lemma solveIK_st_value:
  "fst (solveIK_st targetPos currentAngles iterations h) = next_addr h
   \<and> load (snd (solveIK_st targetPos currentAngles iterations h)) (next_addr h)
       = solveIK targetPos (load h currentAngles) iterations"
proof -
  let ?h1 = "snd (alloc (load h currentAngles) h)"
  have "next_addr h < next_addr ?h1" by (simp add: next_alloc)
  from ik_loop_st_value [OF this, of iterations targetPos 0]
  show ?thesis
    by (simp add: solveIK_st_def solveIK_def split_beta alloc_fst load_alloc_new)
qed

text \<open>
  Claim C10. Neither \<open>solveIK\<close> nor \<open>forwardKinematics\<close> writes to an array it was given:
  every array that exists when the call starts, the seed and the angle vector among them,
  holds the same numbers when the call returns. \<open>solveIK\<close> works on a copy, which is the
  array it returns, and perturbs further copies for the Jacobian.
\<close>

theorem inputs_unchanged:
  assumes "p < next_addr h"
  shows "arrays (snd (solveIK_st targetPos currentAngles iterations h)) p = arrays h p
       \<and> fst (solveIK_st targetPos currentAngles iterations h) \<noteq> p
       \<and> arrays (snd (forwardKinematics_st angles h)) p = arrays h p"
  using solveIK_st_unchanged [of h targetPos currentAngles iterations]
    forwardKinematics_st_unchanged [of "next_addr h" h angles] assms
    solveIK_st_value [of targetPos currentAngles iterations h]
  by (simp add: unchanged_below_def)

theorem inputs_unchanged_witness:
  "0 < next_addr \<lparr>arrays = [0 \<mapsto> home_pose], next_addr = 1\<rparr>
   \<and> arrays (snd (solveIK_st (Vec3 0.3 0 0.5) 0 20 \<lparr>arrays = [0 \<mapsto> home_pose], next_addr = 1\<rparr>)) 0
        = Some home_pose
   \<and> fst (solveIK_st (Vec3 0.3 0 0.5) 0 20 \<lparr>arrays = [0 \<mapsto> home_pose], next_addr = 1\<rparr>) \<noteq> 0
   \<and> arrays (snd (forwardKinematics_st 0 \<lparr>arrays = [0 \<mapsto> home_pose], next_addr = 1\<rparr>)) 0
        = Some home_pose"
  using inputs_unchanged [of 0 "\<lparr>arrays = [0 \<mapsto> home_pose], next_addr = 1\<rparr>" "Vec3 0.3 0 0.5" 0 20 0]
  by simp

text \<open>
  Claim C5. Two runs of \<open>solveIK\<close> with the same target, the same numbers in the seed and the
  same iteration count return arrays holding the same numbers, whatever else the two stores
  hold and wherever the seeds lie: the result depends on nothing but these inputs and the
  constants of the chain.
\<close>

theorem solveIK_same_inputs_same_output:
  assumes "load ha seed1 = load hb seed2"
  shows "load (snd (solveIK_st targetPos seed1 iterations ha)) (fst (solveIK_st targetPos seed1 iterations ha))
       = load (snd (solveIK_st targetPos seed2 iterations hb)) (fst (solveIK_st targetPos seed2 iterations hb))"
  using solveIK_st_value [of targetPos seed1 iterations ha]
    solveIK_st_value [of targetPos seed2 iterations hb] assms
  by simp

theorem solveIK_same_inputs_same_output_witness:
  "load \<lparr>arrays = [0 \<mapsto> home_pose], next_addr = 1\<rparr> 0
     = load \<lparr>arrays = [0 \<mapsto> [1, 2, 3], 1 \<mapsto> home_pose], next_addr = 2\<rparr> 1
   \<and> load (snd (solveIK_st (Vec3 0.3 0 0.5) 0 20 \<lparr>arrays = [0 \<mapsto> home_pose], next_addr = 1\<rparr>))
           (fst (solveIK_st (Vec3 0.3 0 0.5) 0 20 \<lparr>arrays = [0 \<mapsto> home_pose], next_addr = 1\<rparr>))
     = load (snd (solveIK_st (Vec3 0.3 0 0.5) 1 20 \<lparr>arrays = [0 \<mapsto> [1, 2, 3], 1 \<mapsto> home_pose], next_addr = 2\<rparr>))
           (fst (solveIK_st (Vec3 0.3 0 0.5) 1 20 \<lparr>arrays = [0 \<mapsto> [1, 2, 3], 1 \<mapsto> home_pose], next_addr = 2\<rparr>))"
proof -
  have e: "load \<lparr>arrays = [0 \<mapsto> home_pose], next_addr = 1\<rparr> 0
     = load \<lparr>arrays = [0 \<mapsto> [1, 2, 3], 1 \<mapsto> home_pose], next_addr = 2\<rparr> 1"
    by (simp add: load_def)
  from e solveIK_same_inputs_same_output [OF e, of "Vec3 0.3 0 0.5" 20] show ?thesis by simp
qed

end
